theory Spec2Isabelle
  imports Main
begin

section \<open>Values, user code and the module state of MyVue.js\<close>

text \<open>
  The runtime of \<^verbatim>\<open>MyVue.js\<close> keeps its state in module-level variables
  (\<^verbatim>\<open>activeEffect\<close>, \<^verbatim>\<open>targetMap\<close>, \<^verbatim>\<open>effectStack\<close>,
  \<^verbatim>\<open>updatePendding\<close>, \<^verbatim>\<open>updateQueue\<close>, \<^verbatim>\<open>nextTickPending\<close>,
  \<^verbatim>\<open>nextTickCallbacks\<close>) and in the closures and objects it creates.  The model
  passes one record holding all of them.  Objects are named by natural numbers: one
  name per raw object wrapped by \<^verbatim>\<open>reactive\<close>, per \<^verbatim>\<open>ReactiveEffect\<close>, per
  closure of \<^verbatim>\<open>computed\<close> and \<^verbatim>\<open>watch\<close>, per promise.
\<close>

type_synonym tgt = nat
type_synonym key = string
type_synonym eff = nat
type_synonym cid = nat
type_synonym wid = nat
type_synonym pid = nat

text \<open>
  A bucket is the \<^verbatim>\<open>Set\<close> stored under \<^verbatim>\<open>targetMap.get(target).get(key)\<close>.
  \<^verbatim>\<open>track\<close> creates it once and nothing replaces or removes it, so the pair
  (target, key) names the bucket object.
\<close>

type_synonym dep = "tgt \<times> key"

datatype val = VUndefined | VNull | VBool bool | VNum int | VStr string

text \<open>
  User functions (the getter of an effect, the callback of \<^verbatim>\<open>watch\<close>, a
  \<^verbatim>\<open>nextTick\<close> callback) reach the runtime through the traps of a reactive proxy
  and through the \<^verbatim>\<open>value\<close> getter of a computed handle.  Such a function is the
  tree of these interactions: what it does next depends on the values read so far.
\<close>

datatype prog =
    Return val
  | Throw val
  | Get tgt key "val \<Rightarrow> prog"
  | Put tgt key val prog
  | GetValue cid "val \<Rightarrow> prog"

datatype scheduler = NoScheduler | ComputedScheduler cid | WatchScheduler wid

text \<open>
  \<^verbatim>\<open>class ReactiveEffect\<close>.  \<open>deps\<close> is the \<^verbatim>\<open>Set\<close> of buckets in insertion order;
  \<open>deps_length\<close> is the own property \<^verbatim>\<open>length\<close> that \<^verbatim>\<open>cleanup\<close> assigns on that
  \<^verbatim>\<open>Set\<close> object (absent until then).
\<close>

record ReactiveEffect =
  fn :: prog
  deps :: "dep list"
  deps_length :: "int option"
  scheduler :: scheduler

text \<open>The closure variables of one \<^verbatim>\<open>computed(gatter)\<close> call.\<close>

record computed_closure =
  dirty :: bool
  cacheValue :: val
  computedObj :: tgt
  computedEffect :: eff

text \<open>The closure variables of one \<^verbatim>\<open>watch(gatter, cb)\<close> call.\<close>

record watch_closure =
  ov :: val
  cb :: "val \<Rightarrow> val \<Rightarrow> prog"
  watchEffect_of :: eff

datatype promise = Pending | Fulfilled val | Rejected val

datatype task = FlushUpdateQueue | FlushNextTick pid

text \<open>
  \<open>trace\<close> is a history variable, not a variable of the source: it records every call of
  \<^verbatim>\<open>ReactiveEffect.run\<close> and every value handed out by the get trap of a proxy.
\<close>

datatype event = Ran eff | Got tgt key val

record state =
  props :: "dep \<Rightarrow> val"
  targetMap :: "dep \<rightharpoonup> eff list"
  effects :: "eff \<Rightarrow> ReactiveEffect"
  activeEffect :: "eff option"
  effectStack :: "eff list"
  updatePendding :: bool
  updateQueue :: "eff list"
  microtasks :: "task list"
  computeds :: "cid \<Rightarrow> computed_closure"
  watches :: "wid \<Rightarrow> watch_closure"
  nextTickPending :: bool
  nextTickCallbacks :: "prog option list"
  promises :: "pid \<Rightarrow> promise"
  allocated :: nat
  trace :: "event list"

datatype 'a completion = Normal 'a | Raised val | OutOfFuel

section \<open>Dependency registry\<close>

text \<open>\<^verbatim>\<open>Set.prototype.add\<close>: a member keeps its place, a new value goes last.\<close>

definition set_add :: "'a \<Rightarrow> 'a list \<Rightarrow> 'a list" where
  "set_add x xs = (if x \<in> set xs then xs else xs @ [x])"

text \<open>\<^verbatim>\<open>Set.prototype.delete\<close>.\<close>

definition set_delete :: "'a \<Rightarrow> 'a list \<Rightarrow> 'a list" where
  "set_delete x xs = removeAll x xs"

definition track :: "tgt \<Rightarrow> key \<Rightarrow> state \<Rightarrow> state" where
  "track target k s =
     (case activeEffect s of
        None \<Rightarrow> s
      | Some e \<Rightarrow>
          let depSet = (case targetMap s (target, k) of None \<Rightarrow> [] | Some xs \<Rightarrow> xs)
          in s\<lparr>targetMap := (targetMap s)((target, k) \<mapsto> set_add e depSet),
               effects := (effects s)
                 (e := (effects s e)\<lparr>deps := set_add (target, k) (deps (effects s e))\<rparr>)\<rparr>)"

text \<open>
  \<^verbatim>\<open>cleanup() { this.deps.forEach(dep => dep.delete(this)); this.deps.length = 0; }\<close>
  \<open>deps\<close> is a \<^verbatim>\<open>Set\<close>: the assignment writes an own property named \<^verbatim>\<open>length\<close>
  and leaves the members of the set as they are.
\<close>

definition dep_delete :: "eff \<Rightarrow> dep \<Rightarrow> (dep \<rightharpoonup> eff list) \<Rightarrow> (dep \<rightharpoonup> eff list)" where
  "dep_delete e d m = m(d := map_option (set_delete e) (m d))"

definition cleanup :: "eff \<Rightarrow> state \<Rightarrow> state" where
  "cleanup e s =
     s\<lparr>targetMap := fold (dep_delete e) (deps (effects s e)) (targetMap s),
       effects := (effects s)(e := (effects s e)\<lparr>deps_length := Some 0\<rparr>)\<rparr>"

text \<open>
  The get trap of \<^verbatim>\<open>reactive\<close>:
  \<^verbatim>\<open>get(target, key, receiver) { track(target, key); return Reflect.get(target, key, receiver) }\<close>
  The set trap calls \<^verbatim>\<open>trigger\<close> and is part of \<open>exec\<close> below.
\<close>

definition proxy_get :: "tgt \<Rightarrow> key \<Rightarrow> state \<Rightarrow> val \<times> state" where
  "proxy_get target k s =
     (let s1 = track target k s;
          v = props s1 (target, k)
      in (v, s1\<lparr>trace := trace s1 @ [Got target k v]\<rparr>))"

section \<open>Effects, triggers and the update queue\<close>

text \<open>
  Running user code can run the runtime again (a write triggers schedulers, a scheduler
  runs an effect), without bound.  Every function below takes fuel and answers
  \<open>OutOfFuel\<close> when it is used up.

  \<^item> \<open>exec\<close>: a user function; \<open>Get\<close> and \<open>Put\<close> are the traps of \<^verbatim>\<open>reactive\<close>.
  \<^item> \<open>trigger\<close>: \<^verbatim>\<open>trigger(target, key)\<close>.
  \<^item> \<open>notify\<close>: \<^verbatim>\<open>effects.forEach(...)\<close> over the snapshot taken by \<^verbatim>\<open>trigger\<close>.
  \<^item> \<open>call_scheduler\<close>: the schedulers built by \<^verbatim>\<open>computed\<close> and \<^verbatim>\<open>watch\<close>.
  \<^item> \<open>run\<close>: \<^verbatim>\<open>ReactiveEffect.run\<close>.
  \<^item> \<open>get_value\<close>: the \<^verbatim>\<open>value\<close> getter of the handle returned by \<^verbatim>\<open>computed\<close>.
\<close>

text \<open>
  \<^verbatim>\<open>run\<close> is
  \<^verbatim>\<open>try { this.cleanup(); effectStack.push(this); activeEffect = this; res = this.fn(); }\<close>
  \<^verbatim>\<open>finally { effectStack.pop(); activeEffect = effectStack[effectStack.length - 1] }\<close>:
  \<open>enter_effect\<close> is what comes before the call of \<^verbatim>\<open>fn\<close>, \<open>pop_effect\<close> is the
  \<^verbatim>\<open>finally\<close> block.  Reading past the end of the empty stack gives
  \<^verbatim>\<open>undefined\<close>, which \<^verbatim>\<open>track\<close> takes as no active effect.
\<close>

definition enter_effect :: "eff \<Rightarrow> state \<Rightarrow> state" where
  "enter_effect e s =
     (let s1 = cleanup e s
      in s1\<lparr>effectStack := effectStack s1 @ [e], activeEffect := Some e\<rparr>)"

definition pop_effect :: "state \<Rightarrow> state" where
  "pop_effect s =
     (let st = butlast (effectStack s)
      in s\<lparr>effectStack := st, activeEffect := (if st = [] then None else Some (last st))\<rparr>)"

function exec :: "nat \<Rightarrow> prog \<Rightarrow> state \<Rightarrow> val completion \<times> state"
and trigger :: "nat \<Rightarrow> tgt \<Rightarrow> key \<Rightarrow> state \<Rightarrow> unit completion \<times> state"
and notify :: "nat \<Rightarrow> eff list \<Rightarrow> state \<Rightarrow> unit completion \<times> state"
and call_scheduler :: "nat \<Rightarrow> eff \<Rightarrow> state \<Rightarrow> unit completion \<times> state"
and run :: "nat \<Rightarrow> eff \<Rightarrow> state \<Rightarrow> val completion \<times> state"
and get_value :: "nat \<Rightarrow> cid \<Rightarrow> state \<Rightarrow> val completion \<times> state"
where
  "exec 0 p s = (OutOfFuel, s)"
| "exec (Suc n) (Return v) s = (Normal v, s)"
| "exec (Suc n) (Throw v) s = (Raised v, s)"
| "exec (Suc n) (Get target k f) s =
     (let (v, s1) = proxy_get target k s in exec n (f v) s1)"
| "exec (Suc n) (Put target k v p) s =
     (case trigger n target k (s\<lparr>props := (props s)((target, k) := v)\<rparr>) of
        (Normal u, s1) \<Rightarrow> exec n p s1
      | (Raised x, s1) \<Rightarrow> (Raised x, s1)
      | (OutOfFuel, s1) \<Rightarrow> (OutOfFuel, s1))"
| "exec (Suc n) (GetValue c f) s =
     (case get_value n c s of
        (Normal v, s1) \<Rightarrow> exec n (f v) s1
      | (Raised x, s1) \<Rightarrow> (Raised x, s1)
      | (OutOfFuel, s1) \<Rightarrow> (OutOfFuel, s1))"
| "trigger 0 target k s = (OutOfFuel, s)"
| "trigger (Suc n) target k s =
     (case targetMap s (target, k) of
        None \<Rightarrow> (Normal (), s)
      | Some depSet \<Rightarrow>
          (case notify n depSet s of
             (Normal u, s1) \<Rightarrow>
               (Normal (),
                if updatePendding s1 then s1
                else s1\<lparr>updatePendding := True,
                        microtasks := microtasks s1 @ [FlushUpdateQueue]\<rparr>)
           | (Raised x, s1) \<Rightarrow> (Raised x, s1)
           | (OutOfFuel, s1) \<Rightarrow> (OutOfFuel, s1)))"
| "notify 0 es s = (OutOfFuel, s)"
| "notify (Suc n) [] s = (Normal (), s)"
| "notify (Suc n) (e # es) s =
     (case (if scheduler (effects s e) \<noteq> NoScheduler then call_scheduler n e s
            else (Normal (), s\<lparr>updateQueue := set_add e (updateQueue s)\<rparr>)) of
        (Normal u, s1) \<Rightarrow> notify n es s1
      | (Raised x, s1) \<Rightarrow> (Raised x, s1)
      | (OutOfFuel, s1) \<Rightarrow> (OutOfFuel, s1))"
| "call_scheduler 0 e s = (OutOfFuel, s)"
| "call_scheduler (Suc n) e s =
     (case scheduler (effects s e) of
        NoScheduler \<Rightarrow> (Normal (), s)
      | ComputedScheduler c \<Rightarrow>
          trigger n (computedObj (computeds s c)) ''value''
            (s\<lparr>computeds := (computeds s)(c := (computeds s c)\<lparr>dirty := True\<rparr>)\<rparr>)
      | WatchScheduler w \<Rightarrow>
          (case run n (watchEffect_of (watches s w)) s of
             (Normal nv, s1) \<Rightarrow>
               (case exec n (cb (watches s1 w) nv (ov (watches s1 w))) s1 of
                  (Normal u, s2) \<Rightarrow>
                    (Normal (), s2\<lparr>watches := (watches s2)(w := (watches s2 w)\<lparr>ov := nv\<rparr>)\<rparr>)
                | (Raised x, s2) \<Rightarrow> (Raised x, s2)
                | (OutOfFuel, s2) \<Rightarrow> (OutOfFuel, s2))
           | (Raised x, s1) \<Rightarrow> (Raised x, s1)
           | (OutOfFuel, s1) \<Rightarrow> (OutOfFuel, s1)))"
| "run 0 e s = (OutOfFuel, s)"
| "run (Suc n) e s =
     (let s2 = enter_effect e (s\<lparr>trace := trace s @ [Ran e]\<rparr>)
      in case exec n (fn (effects s2 e)) s2 of
           (OutOfFuel, s3) \<Rightarrow> (OutOfFuel, s3)
         | (res, s3) \<Rightarrow> (res, pop_effect s3))"
| "get_value 0 c s = (OutOfFuel, s)"
| "get_value (Suc n) c s =
     (let s1 = track (computedObj (computeds s c)) ''value'' s
      in if dirty (computeds s1 c) then
           (case run n (computedEffect (computeds s1 c)) s1 of
              (Normal v, s2) \<Rightarrow>
                (Normal v,
                 s2\<lparr>computeds := (computeds s2)(c := (computeds s2 c)\<lparr>cacheValue := v, dirty := False\<rparr>)\<rparr>)
            | (Raised x, s2) \<Rightarrow> (Raised x, s2)
            | (OutOfFuel, s2) \<Rightarrow> (OutOfFuel, s2))
         else (Normal (cacheValue (computeds s1 c)), s1))"

  by pat_completeness auto
termination
  by (relation
        "measure (case_sum (case_sum fst (case_sum fst fst)) (case_sum fst (case_sum fst fst)))")
     simp_all

text \<open>
  The job that \<^verbatim>\<open>trigger\<close> hands to \<^verbatim>\<open>queueMicrotask\<close>.
  \<^verbatim>\<open>updateQueue.forEach\<close> walks the live \<^verbatim>\<open>Set\<close>: members added while it runs are
  visited, in insertion order, and adding a member that is already there changes nothing.
  Nothing deletes from \<^verbatim>\<open>updateQueue\<close> during the walk, so the walk is by position.
\<close>

fun drain :: "nat \<Rightarrow> nat \<Rightarrow> state \<Rightarrow> unit completion \<times> state" where
  "drain 0 i s = (OutOfFuel, s)"
| "drain (Suc n) i s =
     (if i < length (updateQueue s) then
        (case run n (updateQueue s ! i) s of
           (Normal v, s1) \<Rightarrow> drain n (Suc i) s1
         | (Raised x, s1) \<Rightarrow> (Raised x, s1)
         | (OutOfFuel, s1) \<Rightarrow> (OutOfFuel, s1))
      else (Normal (), s))"

definition flush :: "nat \<Rightarrow> state \<Rightarrow> unit completion \<times> state" where
  "flush n s =
     (case drain n 0 (s\<lparr>updatePendding := False\<rparr>) of
        (Normal u, s1) \<Rightarrow> (Normal (), s1\<lparr>updateQueue := []\<rparr>)
      | (Raised x, s1) \<Rightarrow> (Raised x, s1)
      | (OutOfFuel, s1) \<Rightarrow> (OutOfFuel, s1))"

section \<open>Creating effects: watchEffect, watch, computed, ref\<close>

definition alloc :: "state \<Rightarrow> nat \<times> state" where
  "alloc s = (allocated s, s\<lparr>allocated := Suc (allocated s)\<rparr>)"

text \<open>\<^verbatim>\<open>reactive(obj)\<close> for a fresh object literal with the given properties.\<close>

definition reactive :: "(key \<times> val) list \<Rightarrow> state \<Rightarrow> tgt \<times> state" where
  "reactive kvs s =
     (let (target, s1) = alloc s
      in (target,
          s1\<lparr>props := (\<lambda>(t, k). if t = target
                                  then (case map_of kvs k of None \<Rightarrow> VUndefined | Some v \<Rightarrow> v)
                                  else props s1 (t, k))\<rparr>))"

definition new_ReactiveEffect :: "prog \<Rightarrow> scheduler \<Rightarrow> state \<Rightarrow> eff \<times> state" where
  "new_ReactiveEffect f sch s =
     (let (e, s1) = alloc s
      in (e, s1\<lparr>effects := (effects s1)
                  (e := \<lparr>fn = f, deps = [], deps_length = None, scheduler = sch\<rparr>)\<rparr>))"

text \<open>
  \<^verbatim>\<open>watchEffect(gatter)\<close> and \<^verbatim>\<open>watch(gatter, cb)\<close> return the closure
  \<^verbatim>\<open>() => { watchEffect.cleanup(); }\<close>; the model returns the effect it closes over and
  \<open>disposer\<close> is the call of that closure.
\<close>

definition watchEffect :: "nat \<Rightarrow> prog \<Rightarrow> state \<Rightarrow> eff completion \<times> state" where
  "watchEffect n gatter s =
     (let (e, s1) = new_ReactiveEffect gatter NoScheduler s
      in case run n e s1 of
           (Normal v, s2) \<Rightarrow> (Normal e, s2)
         | (Raised x, s2) \<Rightarrow> (Raised x, s2)
         | (OutOfFuel, s2) \<Rightarrow> (OutOfFuel, s2))"

definition watch :: "nat \<Rightarrow> prog \<Rightarrow> (val \<Rightarrow> val \<Rightarrow> prog) \<Rightarrow> state \<Rightarrow> eff completion \<times> state" where
  "watch n gatter callback s =
     (let (w, s1) = alloc s;
          (e, s2) = new_ReactiveEffect gatter (WatchScheduler w) s1;
          s3 = s2\<lparr>watches := (watches s2)
                   (w := \<lparr>ov = VUndefined, cb = callback, watchEffect_of = e\<rparr>)\<rparr>
      in case run n e s3 of
           (Normal v, s4) \<Rightarrow>
             (Normal e, s4\<lparr>watches := (watches s4)(w := (watches s4 w)\<lparr>ov := v\<rparr>)\<rparr>)
         | (Raised x, s4) \<Rightarrow> (Raised x, s4)
         | (OutOfFuel, s4) \<Rightarrow> (OutOfFuel, s4))"

definition disposer :: "eff \<Rightarrow> state \<Rightarrow> state" where
  "disposer e s = cleanup e s"

text \<open>
  The objects returned by \<^verbatim>\<open>ref\<close> and \<^verbatim>\<open>computed\<close>: data properties, and the
  accessor property \<^verbatim>\<open>value\<close>.
\<close>

datatype accessor = RefValue tgt | ComputedValue cid

record object =
  data_props :: "(string \<times> val) list"
  value_accessor :: "accessor option"

definition computed :: "prog \<Rightarrow> state \<Rightarrow> object \<times> state" where
  "computed gatter s =
     (let (c, s1) = alloc s;
          (obj, s2) = reactive [(''value'', VNull)] s1;
          (e, s3) = new_ReactiveEffect gatter (ComputedScheduler c) s2
      in (\<lparr>data_props = [(''__v_isRef'', VBool True)], value_accessor = Some (ComputedValue c)\<rparr>,
          s3\<lparr>computeds := (computeds s3)
                (c := \<lparr>dirty = True, cacheValue = VUndefined,
                       computedObj = obj, computedEffect = e\<rparr>)\<rparr>))"

definition ref :: "val \<Rightarrow> state \<Rightarrow> object \<times> state" where
  "ref v s =
     (let (wrappedValue, s1) = reactive [(''value'', v)] s
      in (\<lparr>data_props = [(''__v_isRef'', VBool True)], value_accessor = Some (RefValue wrappedValue)\<rparr>,
          s1))"

text \<open>
  \<^verbatim>\<open>function isRef(obj) { return !!obj?.__v_isRef; }\<close>  The argument is any JavaScript
  value: a primitive or an object.  Reading a property of a primitive other than
  \<^verbatim>\<open>null\<close> and \<^verbatim>\<open>undefined\<close> that its wrapper does not have gives
  \<^verbatim>\<open>undefined\<close>; \<^verbatim>\<open>?.\<close> gives \<^verbatim>\<open>undefined\<close> on \<^verbatim>\<open>null\<close> and
  \<^verbatim>\<open>undefined\<close> instead of raising.
\<close>

datatype jsvalue = Primitive val | Object object

fun truthy :: "val \<Rightarrow> bool" where
  "truthy VUndefined = False"
| "truthy VNull = False"
| "truthy (VBool b) = b"
| "truthy (VNum n) = (n \<noteq> 0)"
| "truthy (VStr s) = (s \<noteq> [])"

fun optional_v_isRef :: "jsvalue \<Rightarrow> val" where
  "optional_v_isRef (Primitive v) = VUndefined"
| "optional_v_isRef (Object obj) =
     (case map_of (data_props obj) ''__v_isRef'' of None \<Rightarrow> VUndefined | Some v \<Rightarrow> v)"

definition isRef :: "jsvalue \<Rightarrow> bool" where
  "isRef obj = truthy (optional_v_isRef obj)"

section \<open>nextTick\<close>

text \<open>
  An entry of \<^verbatim>\<open>nextTickCallbacks\<close> is the closure \<^verbatim>\<open>() => { if (fn) fn() }\<close>; the
  model keeps the \<^verbatim>\<open>fn\<close> it closes over (\<open>None\<close> when \<^verbatim>\<open>nextTick\<close> was called
  without one).  The executor of the returned promise calls \<^verbatim>\<open>resolve\<close> and
  \<^verbatim>\<open>reject\<close> only from the job it schedules when no flush is pending.
\<close>

definition nextTick :: "prog option \<Rightarrow> state \<Rightarrow> pid \<times> state" where
  "nextTick f s =
     (let s1 = s\<lparr>nextTickCallbacks := nextTickCallbacks s @ [f]\<rparr>;
          (p, s2) = alloc s1;
          s3 = s2\<lparr>promises := (promises s2)(p := Pending)\<rparr>
      in (p,
          if \<not> nextTickPending s3
          then s3\<lparr>nextTickPending := True, microtasks := microtasks s3 @ [FlushNextTick p]\<rparr>
          else s3))"

definition call_callback :: "nat \<Rightarrow> prog option \<Rightarrow> state \<Rightarrow> unit completion \<times> state" where
  "call_callback n f s =
     (case f of
        None \<Rightarrow> (Normal (), s)
      | Some p \<Rightarrow>
          (case exec n p s of
             (Normal v, s1) \<Rightarrow> (Normal (), s1)
           | (Raised x, s1) \<Rightarrow> (Raised x, s1)
           | (OutOfFuel, s1) \<Rightarrow> (OutOfFuel, s1)))"

text \<open>\<^verbatim>\<open>copies.forEach(cb => cb())\<close>: an exception leaves the loop.\<close>

fun forEach_callbacks :: "nat \<Rightarrow> prog option list \<Rightarrow> state \<Rightarrow> unit completion \<times> state" where
  "forEach_callbacks n [] s = (Normal (), s)"
| "forEach_callbacks n (f # fs) s =
     (case call_callback n f s of
        (Normal u, s1) \<Rightarrow> forEach_callbacks n fs s1
      | (Raised x, s1) \<Rightarrow> (Raised x, s1)
      | (OutOfFuel, s1) \<Rightarrow> (OutOfFuel, s1))"

definition flushCallbacks :: "nat \<Rightarrow> state \<Rightarrow> unit completion \<times> state" where
  "flushCallbacks n s =
     (let s1 = s\<lparr>nextTickPending := False\<rparr>;
          copies = nextTickCallbacks s1;
          s2 = s1\<lparr>nextTickCallbacks := []\<rparr>
      in forEach_callbacks n copies s2)"

text \<open>A promise settles once: \<^verbatim>\<open>resolve\<close> and \<^verbatim>\<open>reject\<close> on a settled one do nothing.\<close>

definition settle :: "pid \<Rightarrow> promise \<Rightarrow> state \<Rightarrow> state" where
  "settle p r s = (if promises s p = Pending then s\<lparr>promises := (promises s)(p := r)\<rparr> else s)"

text \<open>
  The job scheduled by \<^verbatim>\<open>nextTick\<close>:
  \<^verbatim>\<open>() => { try { flushCallbacks(); resolve() } catch (error) { reject(error) } }\<close>
\<close>

definition flushNextTick :: "nat \<Rightarrow> pid \<Rightarrow> state \<Rightarrow> unit completion \<times> state" where
  "flushNextTick n p s =
     (case flushCallbacks n s of
        (Normal u, s1) \<Rightarrow> (Normal (), settle p (Fulfilled VUndefined) s1)
      | (Raised x, s1) \<Rightarrow> (Normal (), settle p (Rejected x) s1)
      | (OutOfFuel, s1) \<Rightarrow> (OutOfFuel, s1))"

section \<open>The microtask queue\<close>

text \<open>
  \<^verbatim>\<open>queueMicrotask\<close> and \<^verbatim>\<open>Promise.resolve().then\<close> append to one queue of the
  host, which runs the jobs in order until the queue is empty.  An exception that leaves a
  job is reported by the host and the next job runs.
\<close>

definition run_task :: "nat \<Rightarrow> task \<Rightarrow> state \<Rightarrow> unit completion \<times> state" where
  "run_task n t s = (case t of FlushUpdateQueue \<Rightarrow> flush n s | FlushNextTick p \<Rightarrow> flushNextTick n p s)"

fun run_microtasks :: "nat \<Rightarrow> state \<Rightarrow> unit completion \<times> state" where
  "run_microtasks 0 s = (OutOfFuel, s)"
| "run_microtasks (Suc n) s =
     (case microtasks s of
        [] \<Rightarrow> (Normal (), s)
      | t # ts \<Rightarrow>
          (case run_task n t (s\<lparr>microtasks := ts\<rparr>) of
             (OutOfFuel, s1) \<Rightarrow> (OutOfFuel, s1)
           | (r, s1) \<Rightarrow> run_microtasks n s1))"

text \<open>The state of a freshly loaded module.\<close>

definition init :: state where
  "init =
     \<lparr>props = (\<lambda>d. VUndefined),
      targetMap = Map.empty,
      effects = (\<lambda>e. \<lparr>fn = Return VUndefined, deps = [], deps_length = None,
                       scheduler = NoScheduler\<rparr>),
      activeEffect = None,
      effectStack = [],
      updatePendding = False,
      updateQueue = [],
      microtasks = [],
      computeds = (\<lambda>c. \<lparr>dirty = True, cacheValue = VUndefined, computedObj = 0,
                         computedEffect = 0\<rparr>),
      watches = (\<lambda>w. \<lparr>ov = VUndefined, cb = (\<lambda>nv old. Return VUndefined),
                       watchEffect_of = 0\<rparr>),
      nextTickPending = False,
      nextTickCallbacks = [],
      promises = (\<lambda>p. Pending),
      allocated = 0,
      trace = []\<rparr>"

section \<open>Lifecycle hooks\<close>

text \<open>
  \<^verbatim>\<open>currentInstance\<close> and the hook queues of \<^verbatim>\<open>class ComponentInstance\<close>.  A
  registered hook is a function object, named by a number.
\<close>

record ComponentInstance =
  isMounted :: bool
  hooks_mounted :: "nat list"
  hooks_updated :: "nat list"

record lifecycle =
  currentInstance :: "nat option"
  instances :: "nat \<Rightarrow> ComponentInstance"

definition onMounted :: "nat \<Rightarrow> lifecycle \<Rightarrow> val completion \<times> lifecycle" where
  "onMounted f l =
     (case currentInstance l of
        Some i \<Rightarrow>
          (Normal VUndefined,
           l\<lparr>instances := (instances l)
                (i := (instances l i)\<lparr>hooks_mounted := hooks_mounted (instances l i) @ [f]\<rparr>)\<rparr>)
      | None \<Rightarrow> (Normal VUndefined, l))"

definition onUpdated :: "nat \<Rightarrow> lifecycle \<Rightarrow> val completion \<times> lifecycle" where
  "onUpdated f l =
     (case currentInstance l of
        Some i \<Rightarrow>
          (Normal VUndefined,
           l\<lparr>instances := (instances l)
                (i := (instances l i)\<lparr>hooks_updated := hooks_updated (instances l i) @ [f]\<rparr>)\<rparr>)
      | None \<Rightarrow> (Normal VUndefined, l))"

section \<open>Virtual nodes, the host tree and patch\<close>

text \<open>
  A virtual node is an object with the fields \<^verbatim>\<open>type\<close>, \<^verbatim>\<open>props\<close>, \<^verbatim>\<open>text\<close>,
  \<^verbatim>\<open>children\<close> and, once rendered, \<^verbatim>\<open>el\<close>.  \<^verbatim>\<open>children\<close> is absent, a string,
  or an array; an array is an object, and \<^verbatim>\<open>!==\<close> compares two arrays by
  identity, so an array carries the name of its object next to its elements.  An element
  of a children array is a string or a virtual node.

  The trees of this section are those whose \<^verbatim>\<open>type\<close> is a tag name or a symbol.  A
  node whose \<^verbatim>\<open>type\<close> is a component definition is mounted by running the setup and
  render functions of the application, which are not part of the runtime.
\<close>

type_synonym nid = nat

datatype vtype = TagType string | SymbolType

datatype propval = PString string | PStyleObject "(string \<times> string) list" | PFunction nat

datatype vnode =
    VNode (vtype: vtype) (vprops: "(string \<times> propval) list option") (vtext: "string option")
          (children: children) (el: "nid option")
and children = NoChildren | StringChildren string | ArrayChildren nat "child list"
and child = StringChild string | NodeChild vnode





















fun set_el :: "vnode \<Rightarrow> nid option \<Rightarrow> vnode" where
  "set_el (VNode ty pr tx ch old_el) e = VNode ty pr tx ch e"






section \<open>Vocabulary of the properties\<close>

text \<open>
  \<open>nt_same s s'\<close>: the state of \<^verbatim>\<open>nextTick\<close> and the promises are the same in both
  states.
\<close>

definition nt_same :: "state \<Rightarrow> state \<Rightarrow> bool" where
  "nt_same s s' \<longleftrightarrow>
     nextTickPending s' = nextTickPending s \<and> nextTickCallbacks s' = nextTickCallbacks s \<and>
     promises s' = promises s \<and> allocated s' = allocated s"


definition observe :: "dep list \<Rightarrow> state \<Rightarrow> state" where
  "observe ds s = fold (\<lambda>d s1. snd (proxy_get (fst d) (snd d) s1)) ds s"










section \<open>Scenarios\<close>

text \<open>
  No component is running its setup.
\<close>

definition no_instance :: lifecycle where
  "no_instance = \<lparr>currentInstance = None,
                   instances = (\<lambda>i. \<lparr>isMounted = False, hooks_mounted = [], hooks_updated = []\<rparr>)\<rparr>"

text \<open>
  \<^verbatim>\<open>nextTick(); nextTick()\<close> in one synchronous phase, and, with
  \<^verbatim>\<open>const o = reactive({})\<close>,
  \<^verbatim>\<open>nextTick(() => { throw 'boom' }); nextTick(() => { o.x = 1 })\<close>.
\<close>

definition two_ticks :: state where
  "two_ticks = snd (nextTick None (snd (nextTick None init)))"

definition two_callbacks :: state where
  "two_callbacks =
     snd (nextTick (Some (Put 0 ''x'' (VNum 1) (Return VUndefined)))
            (snd (nextTick (Some (Throw (VStr ''boom''))) (snd (reactive [] init)))))"

text \<open>
  \<^verbatim>\<open>const o = reactive({ flag: true, a: 1, b: 2 })\<close>,
  \<^verbatim>\<open>watchEffect(() => o.flag ? o.a : o.b)\<close>, then \<^verbatim>\<open>o.flag = false\<close> and the
  microtasks.
\<close>

definition branching_gatter :: prog where
  "branching_gatter =
     Get 0 ''flag'' (\<lambda>f. if f = VBool True then Get 0 ''a'' Return else Get 0 ''b'' Return)"

definition branching_effect_created :: state where
  "branching_effect_created =
     snd (watchEffect 5 branching_gatter
            (snd (reactive [(''flag'', VBool True), (''a'', VNum 1), (''b'', VNum 2)] init)))"

definition branching_effect_rerun :: state where
  "branching_effect_rerun =
     snd (run_microtasks 9
            (snd (exec 5 (Put 0 ''flag'' (VBool False) (Return VUndefined)) branching_effect_created)))"

text \<open>
  \<^verbatim>\<open>const o = reactive({ a: 0, b: 0 })\<close>, \<^verbatim>\<open>watchEffect(() => o.a)\<close>,
  \<^verbatim>\<open>watchEffect(() => { o.a = o.b })\<close> and the microtasks; then, the history
  emptied, \<^verbatim>\<open>o.a = 5; o.b = 7\<close> in one synchronous phase.
\<close>

definition two_effects :: state where
  "two_effects =
     snd (run_microtasks 9
       (snd (watchEffect 9 (Get 0 ''b'' (\<lambda>v. Put 0 ''a'' v (Return VUndefined)))
         (snd (watchEffect 9 (Get 0 ''a'' Return)
           (snd (reactive [(''a'', VNum 0), (''b'', VNum 0)] init)))))))"

definition two_writes :: state where
  "two_writes =
     snd (exec 9 (Put 0 ''a'' (VNum 5) (Put 0 ''b'' (VNum 7) (Return VUndefined)))
            (two_effects\<lparr>trace := []\<rparr>))"










section \<open>Properties of the dependency registry\<close>

lemma set_delete_idem: "set_delete e (set_delete e xs) = set_delete e xs"
  by (simp add: set_delete_def)

lemma map_set_delete_idem:
  "map_option (set_delete e) (map_option (set_delete e) x) = map_option (set_delete e) x"
  by (cases x) (simp_all add: set_delete_idem)

lemma fold_dep_delete:
  "fold (dep_delete e) ds m = (\<lambda>d. if d \<in> set ds then map_option (set_delete e) (m d) else m d)"
proof (induction ds arbitrary: m)
  case Nil
  show ?case by simp
next
  case (Cons a ds)
  have "fold (dep_delete e) (a # ds) m = fold (dep_delete e) ds (dep_delete e a m)" by simp
  also have "\<dots> = (\<lambda>d. if d \<in> set ds then map_option (set_delete e) (dep_delete e a m d)
                         else dep_delete e a m d)"
    by (rule Cons.IH)
  also have "\<dots> = (\<lambda>d. if d \<in> set (a # ds) then map_option (set_delete e) (m d) else m d)"
    by (rule ext) (simp add: dep_delete_def map_set_delete_idem)
  finally show ?case .
qed

lemma cleanup_twice: "cleanup e (cleanup e s) = cleanup e s"
proof -
  have d: "deps (effects (cleanup e s) e) = deps (effects s e)"
    by (simp add: cleanup_def)
  have t: "targetMap (cleanup e (cleanup e s)) = targetMap (cleanup e s)"
    unfolding cleanup_def
    by (simp add: fold_dep_delete map_set_delete_idem fun_eq_iff)
  show ?thesis
    using t by (simp add: cleanup_def)
qed

text \<open>
  C10.  The disposer returned by \<^verbatim>\<open>watch\<close> and \<^verbatim>\<open>watchEffect\<close> is idempotent:
  for every effect and every state, calling it two or more times in a row leaves the whole
  state, and so every bucket of the dependency registry, as one call leaves it.
\<close>

theorem disposer_idempotent:
  "(disposer e ^^ Suc n) s = disposer e s"
proof (induction n)
  case 0
  show ?case by simp
next
  case (Suc n)
  have "(disposer e ^^ Suc (Suc n)) s = disposer e ((disposer e ^^ Suc n) s)" by simp
  also have "\<dots> = disposer e (disposer e s)" using Suc.IH by simp
  also have "\<dots> = disposer e s" by (simp add: disposer_def cleanup_twice)
  finally show ?case .
qed

section \<open>Properties of the handles\<close>

text \<open>
  C9.  The handles returned by \<^verbatim>\<open>ref\<close> and by \<^verbatim>\<open>computed\<close> both carry the
  field \<^verbatim>\<open>__v_isRef\<close> with the value \<^verbatim>\<open>true\<close>, so \<^verbatim>\<open>isRef\<close> answers true for
  both and does not tell them apart; on \<^verbatim>\<open>null\<close> and \<^verbatim>\<open>undefined\<close> it answers
  false.
\<close>

theorem isRef_handles:
  "map_of (data_props (fst (ref v s))) ''__v_isRef'' = Some (VBool True) \<and>
   map_of (data_props (fst (computed g s))) ''__v_isRef'' = Some (VBool True) \<and>
   isRef (Object (fst (ref v s))) \<and>
   isRef (Object (fst (computed g s))) \<and>
   isRef (Object (fst (computed g s))) = isRef (Object (fst (ref v s))) \<and>
   \<not> isRef (Primitive VNull) \<and>
   \<not> isRef (Primitive VUndefined)"
  by (simp add: ref_def computed_def isRef_def split_def Let_def)

section \<open>Lifecycle hooks\<close>

text \<open>
  C2, as the claim states it: a registration with no active instance raises.  It does not:
  \<^verbatim>\<open>onMounted\<close> and \<^verbatim>\<open>onUpdated\<close> return normally and leave the state as it
  was.
\<close>

theorem hook_without_instance_counterexample:
  "currentInstance no_instance = None \<and>
   onMounted 7 no_instance = (Normal VUndefined, no_instance) \<and>
   onUpdated 7 no_instance = (Normal VUndefined, no_instance)"
  by (simp add: no_instance_def onMounted_def onUpdated_def)

text \<open>
  C2, amended.  With no active instance \<^verbatim>\<open>onMounted(fn)\<close> and \<^verbatim>\<open>onUpdated(fn)\<close>
  return normally and change nothing; with an active instance they append \<open>fn\<close> to the
  end of its list of mounted hooks (of updated hooks) and leave the other list as it was.
\<close>

theorem hook_registration:
  "(currentInstance l = None \<longrightarrow>
      onMounted f l = (Normal VUndefined, l) \<and> onUpdated f l = (Normal VUndefined, l)) \<and>
   (currentInstance l = Some i \<longrightarrow>
      fst (onMounted f l) = Normal VUndefined \<and>
      hooks_mounted (instances (snd (onMounted f l)) i) = hooks_mounted (instances l i) @ [f] \<and>
      hooks_updated (instances (snd (onMounted f l)) i) = hooks_updated (instances l i) \<and>
      fst (onUpdated f l) = Normal VUndefined \<and>
      hooks_updated (instances (snd (onUpdated f l)) i) = hooks_updated (instances l i) @ [f] \<and>
      hooks_mounted (instances (snd (onUpdated f l)) i) = hooks_mounted (instances l i))"
  by (simp add: onMounted_def onUpdated_def)

theorem hook_registration_witness:
  "currentInstance no_instance = None \<and>
   onMounted 7 no_instance = (Normal VUndefined, no_instance) \<and>
   onUpdated 7 no_instance = (Normal VUndefined, no_instance) \<and>
   currentInstance (no_instance\<lparr>currentInstance := Some 0\<rparr>) = Some 0 \<and>
   hooks_mounted (instances (snd (onMounted 7 (no_instance\<lparr>currentInstance := Some 0\<rparr>))) 0) = [7] \<and>
   hooks_updated (instances (snd (onUpdated 7 (no_instance\<lparr>currentInstance := Some 0\<rparr>))) 0) = [7]"
  using hook_registration [where l = no_instance and f = 7 and i = 0]
        hook_registration [where l = "no_instance\<lparr>currentInstance := Some 0\<rparr>" and f = 7 and i = 0]
  by (simp add: no_instance_def)

section \<open>What user code cannot change\<close>

lemma nt_same_refl: "nt_same s s" by (simp add: nt_same_def)

lemma nt_same_trans: "nt_same s s1 \<Longrightarrow> nt_same s1 s2 \<Longrightarrow> nt_same s s2" by (simp add: nt_same_def)

lemma nt_same_track: "nt_same s (track t k s)"
  by (simp add: nt_same_def track_def Let_def split: option.splits)

lemma nt_same_cleanup: "nt_same s (cleanup e s)"
  by (simp add: nt_same_def cleanup_def)

lemma nt_same_pop: "nt_same s (pop_effect s)"
  by (simp add: nt_same_def pop_effect_def Let_def)

lemma nt_same_upd:
  "nt_same s (s\<lparr>trace := tr\<rparr>)" "nt_same s (s\<lparr>props := pr\<rparr>)"
  "nt_same s (s\<lparr>updateQueue := q\<rparr>)" "nt_same s (s\<lparr>computeds := cs\<rparr>)"
  "nt_same s (s\<lparr>watches := ws\<rparr>)" "nt_same s (s\<lparr>updatePendding := b, microtasks := ms\<rparr>)"
  "nt_same s (s\<lparr>effectStack := st, activeEffect := a\<rparr>)"
  by (simp_all add: nt_same_def)

lemma interpreter_nt_same:
  "nt_same s (snd (exec n p s))"
  "nt_same s (snd (trigger n t k s))"
  "nt_same s (snd (notify n es s))"
  "nt_same s (snd (call_scheduler n e s))"
  "nt_same s (snd (run n e s))"
  "nt_same s (snd (get_value n c s))"
proof (induction n p s and n t k s and n es s and n e s and n e s and n c s
       rule: exec_trigger_notify_call_scheduler_run_get_value.induct)
  case (1 p s)
  then show ?case by (simp add: nt_same_refl)
next
  case (2 n v s)
  then show ?case by (simp add: nt_same_refl)
next
  case (3 n v s)
  then show ?case by (simp add: nt_same_refl)
next
  case (4 n target k f s)
  obtain v s1 where P: "proxy_get target k s = (v, s1)" by (cases "proxy_get target k s")
  have a: "nt_same s s1" using P nt_same_track[of s target k]
    by (auto simp: proxy_get_def Let_def nt_same_def)
  have "nt_same s1 (snd (exec n (f v) s1))" using 4[OF P[symmetric] refl] .
  then show ?case using a P by (simp add: nt_same_def)
next
  case (5 n target k v p s)
  show ?case
  proof (cases "trigger n target k (s\<lparr>props := (props s)((target, k) := v)\<rparr>)")
    case (Pair r s1)
    have a: "nt_same s s1" using 5(1) Pair by (simp add: nt_same_def)
    show ?thesis
    proof (cases r)
      case (Normal u)
      have "nt_same s1 (snd (exec n p s1))" using 5(2)[OF Pair[symmetric] Normal] .
      then show ?thesis using a Pair Normal by (simp add: nt_same_def)
    qed (use a Pair in simp_all)
  qed
next
  case (6 n c f s)
  show ?case
  proof (cases "get_value n c s")
    case (Pair r s1)
    have a: "nt_same s s1" using 6(1) Pair by simp
    show ?thesis
    proof (cases r)
      case (Normal v)
      have "nt_same s1 (snd (exec n (f v) s1))" using 6(2)[OF Pair[symmetric] Normal] .
      then show ?thesis using a Pair Normal by (simp add: nt_same_def)
    qed (use a Pair in simp_all)
  qed
next
  case (7 target k s)
  then show ?case by (simp add: nt_same_refl)
next
  case (8 n target k s)
  show ?case
  proof (cases "targetMap s (target, k)")
    case None
    then show ?thesis by (simp add: nt_same_refl)
  next
    case (Some depSet)
    have a: "nt_same s (snd (notify n depSet s))" using 8[OF Some] .
    show ?thesis using a Some
      by (cases "notify n depSet s") (auto simp: nt_same_def split: completion.splits)
  qed
next
  case (9 es s)
  then show ?case by (simp add: nt_same_refl)
next
  case (10 n s)
  then show ?case by (simp add: nt_same_refl)
next
  case (11 n e es s)
  obtain r s1 where P:
    "(if scheduler (effects s e) \<noteq> NoScheduler then call_scheduler n e s
      else (Normal (), s\<lparr>updateQueue := set_add e (updateQueue s)\<rparr>)) = (r, s1)"
    by (cases "(if scheduler (effects s e) \<noteq> NoScheduler then call_scheduler n e s
      else (Normal (), s\<lparr>updateQueue := set_add e (updateQueue s)\<rparr>))")
  have a: "nt_same s s1"
  proof (cases "scheduler (effects s e) \<noteq> NoScheduler")
    case True
    then show ?thesis using 11(1)[OF True] P by simp
  next
    case False
    then show ?thesis using P by (auto simp: nt_same_def)
  qed
  show ?case
  proof (cases r)
    case (Normal u)
    have "nt_same s1 (snd (notify n es s1))" using 11(2)[OF P[symmetric] Normal] .
    then show ?thesis using a P Normal by (simp add: nt_same_def)
  qed (use a P in simp_all)
next
  case (12 e s)
  then show ?case by (simp add: nt_same_refl)
next
  case (13 n e s)
  show ?case
  proof (cases "scheduler (effects s e)")
    case NoScheduler
    then show ?thesis by (simp add: nt_same_refl)
  next
    case (ComputedScheduler c)
    show ?thesis using 13(1)[OF ComputedScheduler] ComputedScheduler by (simp add: nt_same_def)
  next
    case (WatchScheduler w)
    obtain r s1 where P: "run n (watchEffect_of (watches s w)) s = (r, s1)"
      by (cases "run n (watchEffect_of (watches s w)) s")
    have a: "nt_same s s1" using 13(2)[OF WatchScheduler] P by simp
    show ?thesis
    proof (cases r)
      case (Normal nv)
      obtain r2 s2 where Q: "exec n (cb (watches s1 w) nv (ov (watches s1 w))) s1 = (r2, s2)"
        by (cases "exec n (cb (watches s1 w) nv (ov (watches s1 w))) s1")
      have b: "nt_same s1 s2" using 13(3)[OF WatchScheduler P[symmetric] Normal] Q by simp
      show ?thesis using a b P Q Normal WatchScheduler
        by (cases r2) (simp_all add: nt_same_def)
    qed (use a P WatchScheduler in simp_all)
  qed
next
  case (14 e s)
  then show ?case by (simp add: nt_same_refl)
next
  case (15 n e s)
  define s2 where "s2 = enter_effect e (s\<lparr>trace := trace s @ [Ran e]\<rparr>)"
  have a: "nt_same s s2" by (simp add: s2_def nt_same_def enter_effect_def cleanup_def Let_def)
  obtain r s3 where P: "exec n (fn (effects s2 e)) s2 = (r, s3)" by (cases "exec n (fn (effects s2 e)) s2")
  have b: "nt_same s2 s3" using 15[OF s2_def] P by simp
  show ?case using a b P
    by (cases r) (simp_all add: Let_def s2_def[symmetric] nt_same_def pop_effect_def)
next
  case (16 c s)
  then show ?case by (simp add: nt_same_refl)
next
  case (17 n c s)
  define s1 where "s1 = track (computedObj (computeds s c)) ''value'' s"
  have a: "nt_same s s1" by (simp add: s1_def nt_same_track)
  show ?case
  proof (cases "dirty (computeds s1 c)")
    case True
    obtain r s2 where P: "run n (computedEffect (computeds s1 c)) s1 = (r, s2)"
      by (cases "run n (computedEffect (computeds s1 c)) s1")
    have b: "nt_same s1 s2" using 17[OF s1_def True] P by simp
    show ?thesis using a b P True
      by (cases r) (simp_all add: Let_def s1_def[symmetric] nt_same_def)
  next
    case False
    then show ?thesis using a by (simp add: Let_def s1_def[symmetric])
  qed
qed

section \<open>nextTick\<close>

text \<open>
  C3.  The claim: every call of \<^verbatim>\<open>nextTick\<close> returns an awaitable that settles.  Two
  calls in one synchronous phase: the first promise is fulfilled by the flush, the second one
  is still pending when the microtask queue is empty and no callback is left.
\<close>

theorem second_nextTick_never_settles:
  "fst (nextTick None init) = 0 \<and>
   fst (nextTick None (snd (nextTick None init))) = 1 \<and>
   fst (run_microtasks 3 two_ticks) = Normal () \<and>
   microtasks (snd (run_microtasks 3 two_ticks)) = [] \<and>
   nextTickCallbacks (snd (run_microtasks 3 two_ticks)) = [] \<and>
   promises (snd (run_microtasks 3 two_ticks)) 0 = Fulfilled VUndefined \<and>
   promises (snd (run_microtasks 3 two_ticks)) 1 = Pending"
  by (simp add: two_ticks_def nextTick_def init_def alloc_def Let_def eval_nat_numeral
        run_task_def flushNextTick_def flushCallbacks_def call_callback_def settle_def)

text \<open>
  C7, as the claim states it: a callback that raises does not keep the later callbacks of
  the snapshot from being invoked.  It does: the second callback would have written
  \<^verbatim>\<open>o.x\<close>, and after the flush \<^verbatim>\<open>o.x\<close> is still undefined, the promise is
  rejected and nothing is left in the two queues.
\<close>

theorem raising_callback_counterexample:
  "nextTickCallbacks two_callbacks =
     [Some (Throw (VStr ''boom'')), Some (Put 0 ''x'' (VNum 1) (Return VUndefined))] \<and>
   microtasks two_callbacks = [FlushNextTick 1] \<and>
   fst (run_microtasks 5 two_callbacks) = Normal () \<and>
   promises (snd (run_microtasks 5 two_callbacks)) 1 = Rejected (VStr ''boom'') \<and>
   props (snd (run_microtasks 5 two_callbacks)) (0, ''x'') = VUndefined \<and>
   nextTickCallbacks (snd (run_microtasks 5 two_callbacks)) = [] \<and>
   microtasks (snd (run_microtasks 5 two_callbacks)) = []"
  by (simp add: two_callbacks_def nextTick_def init_def alloc_def reactive_def Let_def
        eval_nat_numeral run_task_def flushNextTick_def flushCallbacks_def call_callback_def
        settle_def)

lemma forEach_callbacks_append:
  "forEach_callbacks n fs1 s0 = (Normal (), s1) \<Longrightarrow>
   forEach_callbacks n (fs1 @ fs) s0 = forEach_callbacks n fs s1"
proof (induction fs1 arbitrary: s0)
  case Nil
  then show ?case by simp
next
  case (Cons f fs1)
  obtain r s' where P: "call_callback n f s0 = (r, s')" by (cases "call_callback n f s0")
  show ?case using Cons P by (cases r) simp_all
qed

lemma call_callback_nt_same: "nt_same s (snd (call_callback n f s))"
proof (cases f)
  case None
  then show ?thesis by (simp add: call_callback_def nt_same_refl)
next
  case (Some p)
  obtain r s' where P: "exec n p s = (r, s')" by (cases "exec n p s")
  have "nt_same s s'" using interpreter_nt_same(1)[of s n p] P by simp
  then show ?thesis using Some P by (cases r) (simp_all add: call_callback_def)
qed

lemma forEach_callbacks_nt_same: "nt_same s (snd (forEach_callbacks n fs s))"
proof (induction fs arbitrary: s)
  case Nil
  then show ?case by (simp add: nt_same_refl)
next
  case (Cons f fs)
  obtain r s' where P: "call_callback n f s = (r, s')" by (cases "call_callback n f s")
  have a: "nt_same s s'" using call_callback_nt_same[of s n f] P by simp
  have b: "nt_same s' (snd (forEach_callbacks n fs s'))" by (rule Cons.IH)
  show ?case using a b P by (cases r) (auto simp: nt_same_def)
qed

text \<open>
  C7, amended.  \<^verbatim>\<open>flushCallbacks\<close> clears the pending flag and the callback list
  before it invokes the first callback of the snapshot.  When the callbacks before \<open>f\<close>
  return and \<open>f\<close> raises \<open>x\<close>, the flush ends there, in the state \<open>f\<close> left: the later
  callbacks of the snapshot are not invoked.  The promise of the round is rejected with
  \<open>x\<close>, the pending flag is false and the list empty, and the next call of
  \<^verbatim>\<open>nextTick\<close> schedules a flush.
\<close>

theorem flush_stops_at_raising_callback:
  assumes cbs: "nextTickCallbacks s = fs1 @ f # fs2"
      and before: "forEach_callbacks n fs1 (s\<lparr>nextTickPending := False, nextTickCallbacks := []\<rparr>) = (Normal (), s1)"
      and raises: "call_callback n f s1 = (Raised x, s2)"
      and pending: "promises s p = Pending"
  shows "flushCallbacks n s =
           forEach_callbacks n (nextTickCallbacks s) (s\<lparr>nextTickPending := False, nextTickCallbacks := []\<rparr>) \<and>
         flushCallbacks n s = (Raised x, s2) \<and>
         flushNextTick n p s = (Normal (), s2\<lparr>promises := (promises s2)(p := Rejected x)\<rparr>) \<and>
         nextTickPending (snd (flushNextTick n p s)) = False \<and>
         nextTickCallbacks (snd (flushNextTick n p s)) = [] \<and>
         microtasks (snd (nextTick g (snd (flushNextTick n p s)))) =
           microtasks (snd (flushNextTick n p s)) @ [FlushNextTick (fst (nextTick g (snd (flushNextTick n p s))))]"
proof -
  let ?s0 = "s\<lparr>nextTickPending := False, nextTickCallbacks := []\<rparr>"
  have a: "flushCallbacks n s = forEach_callbacks n (nextTickCallbacks s) ?s0"
    by (simp add: flushCallbacks_def Let_def)
  have "forEach_callbacks n (fs1 @ f # fs2) ?s0 = forEach_callbacks n (f # fs2) s1"
    using before by (rule forEach_callbacks_append)
  also have "\<dots> = (Raised x, s2)" using raises by simp
  finally have b: "flushCallbacks n s = (Raised x, s2)" using a cbs by simp
  have n1: "nt_same ?s0 s1" using forEach_callbacks_nt_same[of ?s0 n fs1] before by simp
  have n2: "nt_same s1 s2" using call_callback_nt_same[of s1 n f] raises by simp
  have fr: "nextTickPending s2 = False" "nextTickCallbacks s2 = []" "promises s2 = promises s"
    using n1 n2 by (simp_all add: nt_same_def)
  have c: "flushNextTick n p s = (Normal (), s2\<lparr>promises := (promises s2)(p := Rejected x)\<rparr>)"
    using b fr pending by (simp add: flushNextTick_def settle_def)
  show ?thesis using a b c fr
    by (simp add: nextTick_def alloc_def Let_def)
qed

theorem flush_stops_at_raising_callback_witness:
  "nextTickCallbacks two_callbacks = [] @ Some (Throw (VStr ''boom'')) # [Some (Put 0 ''x'' (VNum 1) (Return VUndefined))] \<and>
   promises two_callbacks 1 = Pending \<and>
   flushCallbacks 3 two_callbacks =
     (Raised (VStr ''boom''), two_callbacks\<lparr>nextTickPending := False, nextTickCallbacks := []\<rparr>) \<and>
   promises (snd (flushNextTick 3 1 two_callbacks)) 1 = Rejected (VStr ''boom'')"
proof -
  have c: "nextTickCallbacks two_callbacks = [] @ Some (Throw (VStr ''boom'')) # [Some (Put 0 ''x'' (VNum 1) (Return VUndefined))]"
    by (simp add: two_callbacks_def nextTick_def init_def alloc_def reactive_def Let_def)
  have b: "forEach_callbacks 3 [] (two_callbacks\<lparr>nextTickPending := False, nextTickCallbacks := []\<rparr>) =
      (Normal (), two_callbacks\<lparr>nextTickPending := False, nextTickCallbacks := []\<rparr>)"
    by simp
  have r: "call_callback 3 (Some (Throw (VStr ''boom''))) (two_callbacks\<lparr>nextTickPending := False, nextTickCallbacks := []\<rparr>) =
      (Raised (VStr ''boom''), two_callbacks\<lparr>nextTickPending := False, nextTickCallbacks := []\<rparr>)"
    by (simp add: call_callback_def eval_nat_numeral)
  have p: "promises two_callbacks 1 = Pending"
    by (simp add: two_callbacks_def nextTick_def init_def alloc_def reactive_def Let_def)
  have t: "flushCallbacks 3 two_callbacks =
             (Raised (VStr ''boom''), two_callbacks\<lparr>nextTickPending := False, nextTickCallbacks := []\<rparr>) \<and>
           flushNextTick 3 1 two_callbacks =
             (Normal (), two_callbacks\<lparr>nextTickPending := False, nextTickCallbacks := [],
                promises := (promises (two_callbacks\<lparr>nextTickPending := False, nextTickCallbacks := []\<rparr>))
                   (1 := Rejected (VStr ''boom''))\<rparr>)"
    using flush_stops_at_raising_callback [OF c b r p] by blast
  show ?thesis
    using t c p by simp
qed

section \<open>Cleanup and the update queue on concrete runs\<close>

text \<open>
  C4.  The claim: \<^verbatim>\<open>cleanup\<close> empties the effect's set of buckets, so after a run the
  set holds the buckets of that run only.  The effect reads \<^verbatim>\<open>flag\<close> and \<^verbatim>\<open>a\<close> in
  its first run, \<^verbatim>\<open>flag\<close> and \<^verbatim>\<open>b\<close> in its second.  After the second run the
  effect is out of the bucket of \<^verbatim>\<open>a\<close>, and that bucket is still in its set: the
  assignment to \<^verbatim>\<open>length\<close> has left the set as it was.
\<close>

theorem stale_bucket_stays_in_deps:
  "deps (effects branching_effect_created 1) = [(0, ''flag''), (0, ''a'')] \<and>
   trace branching_effect_rerun =
     [Ran 1, Got 0 ''flag'' (VBool True), Got 0 ''a'' (VNum 1),
      Ran 1, Got 0 ''flag'' (VBool False), Got 0 ''b'' (VNum 2)] \<and>
   deps (effects branching_effect_rerun 1) = [(0, ''flag''), (0, ''a''), (0, ''b'')] \<and>
   deps_length (effects branching_effect_rerun 1) = Some 0 \<and>
   targetMap branching_effect_rerun (0, ''a'') = Some [] \<and>
   targetMap branching_effect_rerun (0, ''b'') = Some [1]"
  by code_simp

text \<open>
  C1.  The claim: an effect triggered while the queue is drained is rerun.  Effect 1 reads
  \<^verbatim>\<open>a\<close>; effect 2 copies \<^verbatim>\<open>b\<close> to \<^verbatim>\<open>a\<close>.  The drain runs effect 1, then
  effect 2, whose write triggers effect 1.  The trigger finds the flag not pending and
  schedules a flush, but effect 1 is already in the queue, the queue is cleared at the end
  of the drain, and the flush it scheduled finds the queue empty: effect 1 is subscribed to
  \<^verbatim>\<open>a\<close>, has seen 5, and \<^verbatim>\<open>a\<close> is 7.
\<close>

theorem retrigger_during_drain_is_lost:
  "updateQueue two_writes = [1, 2] \<and>
   microtasks two_writes = [FlushUpdateQueue] \<and>
   fst (flush 9 (two_writes\<lparr>microtasks := []\<rparr>)) = Normal () \<and>
   updatePendding (snd (flush 9 (two_writes\<lparr>microtasks := []\<rparr>))) \<and>
   microtasks (snd (flush 9 (two_writes\<lparr>microtasks := []\<rparr>))) = [FlushUpdateQueue] \<and>
   updateQueue (snd (flush 9 (two_writes\<lparr>microtasks := []\<rparr>))) = [] \<and>
   fst (run_microtasks 19 two_writes) = Normal () \<and>
   microtasks (snd (run_microtasks 19 two_writes)) = [] \<and>
   targetMap (snd (run_microtasks 19 two_writes)) (0, ''a'') = Some [1] \<and>
   props (snd (run_microtasks 19 two_writes)) (0, ''a'') = VNum 7 \<and>
   trace (snd (run_microtasks 19 two_writes)) =
     [Ran 1, Got 0 ''a'' (VNum 5), Ran 2, Got 0 ''b'' (VNum 7)]"
  by code_simp

section \<open>Effects that only read\<close>



lemma proxy_get_top: "activeEffect s = None \<Longrightarrow> snd (proxy_get t k s) = s\<lparr>trace := trace s @ [Got t k (props s (t, k))]\<rparr>"
  by (simp add: proxy_get_def track_def Let_def)

lemma observe_Nil [simp]: "observe [] s = s" by (simp add: observe_def)

lemma observe_Cons [simp]: "observe (d # ds) s = observe ds (snd (proxy_get (fst d) (snd d) s))"
  by (simp add: observe_def)












section \<open>Computed values\<close>










section \<open>Synchronous writes and the flush\<close>



















section \<open>patch\<close>









lemma children_set_el [simp]: "children (set_el n e) = children n"
  by (cases n) simp






end
